theory Spec2Isabelle
  imports Complex_Main "HOL-Library.Multiset" "HOL-Library.Sublist"
begin

section \<open>Domain model (internal/core/domain/models)\<close>

text \<open>
  A Go \<open>error\<close> value. \<open>Err m\<close> is \<open>fmt.Errorf(m)\<close> or an error coming from a
  library; \<open>Wrap m e\<close> is \<open>fmt.Errorf("m: %w", e)\<close>. The message literals of the source
  are Russian; they are rendered in English here, one literal per source literal.
\<close>

datatype error = Err string | Wrap string error

text \<open>
  A \<open>time.Time\<close>: the instant in nanoseconds since the Unix epoch, and the offset of its
  location east of UTC in nanoseconds. Monotonic clock readings are not modelled.
\<close>

record time =
  instant :: int
  zone :: int

text \<open>
  A Go \<open>float64\<close>: not-a-number, the two infinities, or a finite number (the finite
  values are taken from the reals; the two zeros are one value, as they are for \<open><\<close>).
  \<open>strconv.ParseFloat\<close>, which fills the fields of a stock, returns all of them.
  \<open>f64_less\<close> is Go's \<open><\<close>: false as soon as one side is not-a-number, the order of
  the extended reals otherwise. Go's \<open>a > b\<close> is \<open>b < a\<close>.
\<close>

datatype float64 = NaN | NegInf | Finite real | PosInf

fun f64_less :: "float64 \<Rightarrow> float64 \<Rightarrow> bool" where
  "f64_less NaN b = False"
| "f64_less a NaN = False"
| "f64_less NegInf NegInf = False"
| "f64_less NegInf b = True"
| "f64_less (Finite x) NegInf = False"
| "f64_less (Finite x) (Finite y) = (x < y)"
| "f64_less (Finite x) PosInf = True"
| "f64_less PosInf b = False"

definition f64_greater :: "float64 \<Rightarrow> float64 \<Rightarrow> bool" where
  "f64_greater a b = f64_less b a"

text \<open>\<open>models.Stock\<close>.\<close>

record stock =
  Ticker :: string
  Name :: string
  Price :: float64
  Change :: float64
  ChangePerc :: float64
  Volume :: int
  UpdatedAt :: time

record news =
  ID :: string
  Title :: string
  Description :: string
  Content :: string
  URL :: string
  Source :: string
  PublishedAt :: time
  CreatedAt :: time
  Tags :: "string list"
  RelatedTo :: "string list"

section \<open>Repository ports (internal/core/ports/repositories)\<close>

text \<open>
  The services hold their repository behind an interface. A method of the interface is a
  function on the state \<open>'s\<close> of everything the repository touches (cache, store,
  providers): it returns its result and the state it leaves.
\<close>

record 's StockRepository =
  repo_GetStock :: "string \<Rightarrow> 's \<Rightarrow> (error + stock) \<times> 's"
  repo_GetStocks :: "string list \<Rightarrow> 's \<Rightarrow> (error + stock list) \<times> 's"

record 's NewsRepository =
  repo_GetNewsForToday :: "'s \<Rightarrow> (error + news list) \<times> 's"
  repo_GetNewsByKeyword :: "string \<Rightarrow> 's \<Rightarrow> (error + news list) \<times> 's"

section \<open>The bubble sort of the services\<close>

text \<open>
  The three ranking functions and \<open>GetRecentNews\<close> contain the same loop nest,
  \<^verbatim>\<open>
  n := len(xs)
  for i := 0; i < n-1; i++ {
      for j := 0; j < n-i-1; j++ {
          if before(xs[j], xs[j+1]) { xs[j], xs[j+1] = xs[j+1], xs[j] }
      }
  }
  \<close>
  which differ in the comparison \<open>before\<close> only; it is the parameter \<open>swp\<close>.
  \<open>bubble_inner swp j b xs\<close> is the inner loop from index \<open>j\<close> with bound
  \<open>b = n-i-1\<close>; \<open>bubble_outer swp n i xs\<close> is the outer loop from index \<open>i\<close>.
  The Go \<open>int\<close> test \<open>i < n-1\<close> is \<open>i + 1 < n\<close> on naturals (for \<open>n = 0\<close> both fail).
\<close>

function bubble_inner :: "('a \<Rightarrow> 'a \<Rightarrow> bool) \<Rightarrow> nat \<Rightarrow> nat \<Rightarrow> 'a list \<Rightarrow> 'a list" where
  "bubble_inner swp j b xs =
     (if j < b
      then bubble_inner swp (j + 1) b
             (if swp (xs ! j) (xs ! (j + 1)) then xs[j := xs ! (j + 1), j + 1 := xs ! j] else xs)
      else xs)"
  by pat_completeness auto
termination
  by (relation "measure (\<lambda>(swp, j, b, xs). b - j)") auto

function bubble_outer :: "('a \<Rightarrow> 'a \<Rightarrow> bool) \<Rightarrow> nat \<Rightarrow> nat \<Rightarrow> 'a list \<Rightarrow> 'a list" where
  "bubble_outer swp n i xs =
     (if i + 1 < n
      then bubble_outer swp n (i + 1) (bubble_inner swp 0 (n - i - 1) xs)
      else xs)"
  by pat_completeness auto
termination
  by (relation "measure (\<lambda>(swp, n, i, xs). n - i)") auto

declare bubble_inner.simps [simp del] bubble_outer.simps [simp del]

definition bubble_sort :: "('a \<Rightarrow> 'a \<Rightarrow> bool) \<Rightarrow> 'a list \<Rightarrow> 'a list" where
  "bubble_sort swp xs = bubble_outer swp (length xs) 0 xs"

text \<open>
  The tail of the four functions: \<open>if limit > len(xs) { limit = len(xs) }\<close>, then
  \<open>xs[:limit]\<close>. The limit is positive here.
\<close>

definition top_n :: "int \<Rightarrow> 'a list \<Rightarrow> 'a list" where
  "top_n limit xs =
     (let limit = (if limit > int (length xs) then int (length xs) else limit)
      in take (nat limit) xs)"

section \<open>StockServiceImpl\<close>

definition msg_empty_ticker :: string where
  "msg_empty_ticker = ''ticker must not be empty''"

definition msg_empty_query :: string where
  "msg_empty_query = ''search query must not be empty''"

definition GetStockInfo :: "'s StockRepository \<Rightarrow> string \<Rightarrow> 's \<Rightarrow> (error + stock) \<times> 's" where
  "GetStockInfo stockRepo ticker s =
     (if ticker = [] then (Inl (Err msg_empty_ticker), s)
      else repo_GetStock stockRepo ticker s)"

definition GetMOEXTopGainers :: "'s StockRepository \<Rightarrow> int \<Rightarrow> 's \<Rightarrow> (error + stock list) \<times> 's" where
  "GetMOEXTopGainers stockRepo limit s =
     (let limit = (if limit \<le> 0 then 10 else limit)
      in case repo_GetStocks stockRepo [] s of
           (Inl err, s') \<Rightarrow> (Inl err, s')
         | (Inr stocks, s') \<Rightarrow>
             (Inr (top_n limit (bubble_sort (\<lambda>a b. f64_less (ChangePerc a) (ChangePerc b)) stocks)), s'))"

definition GetMOEXTopLosers :: "'s StockRepository \<Rightarrow> int \<Rightarrow> 's \<Rightarrow> (error + stock list) \<times> 's" where
  "GetMOEXTopLosers stockRepo limit s =
     (let limit = (if limit \<le> 0 then 10 else limit)
      in case repo_GetStocks stockRepo [] s of
           (Inl err, s') \<Rightarrow> (Inl err, s')
         | (Inr stocks, s') \<Rightarrow>
             (Inr (top_n limit (bubble_sort (\<lambda>a b. f64_greater (ChangePerc a) (ChangePerc b)) stocks)), s'))"

text \<open>
  \<open>containsIgnoreCase\<close>, as the source has it:
  \<^verbatim>\<open>
  func containsIgnoreCase(s, substr string) bool {
      s, substr = s, substr
      return true
  }
  \<close>
\<close>

definition containsIgnoreCase :: "string \<Rightarrow> string \<Rightarrow> bool" where
  "containsIgnoreCase s substr = (let (s, substr) = (s, substr) in True)"

definition SearchStocks :: "'s StockRepository \<Rightarrow> string \<Rightarrow> 's \<Rightarrow> (error + stock list) \<times> 's" where
  "SearchStocks stockRepo query s =
     (if query = [] then (Inl (Err msg_empty_query), s)
      else case repo_GetStocks stockRepo [] s of
             (Inl err, s') \<Rightarrow> (Inl err, s')
           | (Inr stocks, s') \<Rightarrow>
               (let queryLower = query
                in (Inr (filter (\<lambda>stock. containsIgnoreCase (Ticker stock) queryLower
                                        \<or> containsIgnoreCase (Name stock) queryLower) stocks), s')))"


section \<open>NewsServiceImpl\<close>

definition msg_empty_keyword :: string where
  "msg_empty_keyword = ''keyword must not be empty''"

definition msg_empty_tickers :: string where
  "msg_empty_tickers = ''ticker list must not be empty''"

text \<open>\<open>t.Before(u)\<close> compares the instants.\<close>

definition Before :: "time \<Rightarrow> time \<Rightarrow> bool" where
  "Before t u = (instant t < instant u)"

definition GetRecentNews :: "'s NewsRepository \<Rightarrow> int \<Rightarrow> 's \<Rightarrow> (error + news list) \<times> 's" where
  "GetRecentNews newsRepo limit s =
     (let limit = (if limit \<le> 0 then 10 else limit)
      in case repo_GetNewsForToday newsRepo s of
           (Inl err, s') \<Rightarrow> (Inl err, s')
         | (Inr news, s') \<Rightarrow>
             (Inr (top_n limit
                    (bubble_sort (\<lambda>a b. Before (PublishedAt a) (PublishedAt b)) news)), s'))"

definition SearchNewsByKeyword :: "'s NewsRepository \<Rightarrow> string \<Rightarrow> 's \<Rightarrow> (error + news list) \<times> 's" where
  "SearchNewsByKeyword newsRepo keyword s =
     (if keyword = [] then (Inl (Err msg_empty_keyword), s)
      else repo_GetNewsByKeyword newsRepo keyword s)"

text \<open>
  \<open>containsTickerInNews\<close>: the loop over \<open>news.RelatedTo\<close> returns true at the first equal
  entry; after it come the three calls of \<open>containsIgnoreCase\<close>.
\<close>

fun related_loop :: "string list \<Rightarrow> string \<Rightarrow> bool" where
  "related_loop [] ticker = False"
| "related_loop (t # ts) ticker = (if t = ticker then True else related_loop ts ticker)"

definition containsTickerInNews :: "news \<Rightarrow> string \<Rightarrow> bool" where
  "containsTickerInNews news ticker =
     (if related_loop (RelatedTo news) ticker then True
      else containsIgnoreCase (Title news) ticker
         \<or> containsIgnoreCase (Description news) ticker
         \<or> containsIgnoreCase (Content news) ticker)"

text \<open>
  The loops of \<open>GetNewsForMultipleTickers\<close>. The accumulator is the pair of \<open>result\<close> and
  the map \<open>seen\<close> (a Go \<open>map[string]bool\<close>: a missing key reads as false). The inner loop
  stops (\<open>break\<close>) at the first ticker that the item contains.
\<close>

fun scan_tickers :: "news \<Rightarrow> string list \<Rightarrow> news list \<times> (string \<Rightarrow> bool) \<Rightarrow> news list \<times> (string \<Rightarrow> bool)" where
  "scan_tickers news [] (result, seen) = (result, seen)"
| "scan_tickers news (ticker # tickers) (result, seen) =
     (if containsTickerInNews news ticker
      then (if \<not> seen (ID news) then (result @ [news], seen(ID news := True))
            else (result, seen))
      else scan_tickers news tickers (result, seen))"

fun scan_news :: "string list \<Rightarrow> news list \<Rightarrow> news list \<times> (string \<Rightarrow> bool) \<Rightarrow> news list \<times> (string \<Rightarrow> bool)" where
  "scan_news tickers [] acc = acc"
| "scan_news tickers (news # allNews) acc = scan_news tickers allNews (scan_tickers news tickers acc)"

definition GetNewsForMultipleTickers :: "'s NewsRepository \<Rightarrow> string list \<Rightarrow> 's \<Rightarrow> (error + news list) \<times> 's" where
  "GetNewsForMultipleTickers newsRepo tickers s =
     (if length tickers = 0 then (Inl (Err msg_empty_tickers), s)
      else case repo_GetNewsForToday newsRepo s of
             (Inl err, s') \<Rightarrow> (Inl err, s')
           | (Inr allNews, s') \<Rightarrow> (Inr (fst (scan_news tickers allNews ([], \<lambda>k. False))), s'))"

section \<open>NewsAPIClient: generateNewsID\<close>

text \<open>
  \<open>strings.Split(s, sep)\<close> for a separator of one byte: the pieces of \<open>s\<close> between the
  occurrences of \<open>sep\<close>; there is always at least one piece.
\<close>

fun strings_Split :: "string \<Rightarrow> char \<Rightarrow> string list" where
  "strings_Split [] sep = [[]]"
| "strings_Split (c # cs) sep =
     (if c = sep then [] # strings_Split cs sep
      else (case strings_Split cs sep of
              [] \<Rightarrow> [[c]]
            | part # parts \<Rightarrow> (c # part) # parts))"

text \<open>\<open>fmt.Sprintf("%d", i)\<close>: the decimal digits of an integer.\<close>

definition digit_char :: "int \<Rightarrow> char" where
  "digit_char d =
     (if d = 0 then CHR ''0'' else if d = 1 then CHR ''1'' else if d = 2 then CHR ''2''
      else if d = 3 then CHR ''3'' else if d = 4 then CHR ''4'' else if d = 5 then CHR ''5''
      else if d = 6 then CHR ''6'' else if d = 7 then CHR ''7'' else if d = 8 then CHR ''8''
      else CHR ''9'')"

function dec_digits :: "int \<Rightarrow> string" where
  "dec_digits n = (if n < 10 then [digit_char n]
                   else dec_digits (n div 10) @ [digit_char (n mod 10)])"
  by pat_completeness auto
termination
  by (relation "measure nat") auto

declare dec_digits.simps [simp del]

definition Sprintf_d :: "int \<Rightarrow> string" where
  "Sprintf_d i = (if i < 0 then CHR ''-'' # dec_digits (- i) else dec_digits i)"

text \<open>
  \<open>t.Unix()\<close>: whole seconds since the epoch.
\<close>

definition Unix :: "time \<Rightarrow> int" where
  "Unix t = instant t div 1000000000"

text \<open>
  \<open>generateNewsID(url)\<close>; \<open>now\<close> is the value of \<open>time.Now()\<close> that the last line of
  the function would read.
\<close>

definition generateNewsID :: "string \<Rightarrow> time \<Rightarrow> string" where
  "generateNewsID url now =
     (let parts = strings_Split url CHR ''/''
      in if length parts > 0
         then (let lastPart = parts ! (length parts - 1);
                   lastPart = strings_Split lastPart CHR ''?'' ! 0;
                   lastPart = strings_Split lastPart CHR ''#'' ! 0;
                   lastPart = strings_Split lastPart CHR ''.'' ! 0
               in lastPart)
         else ''news_'' @ Sprintf_d (Unix now))"

section \<open>Cache backends (pkg/cache)\<close>

text \<open>
  \<open>redis.Nil\<close>, the error by which the go-redis client reports an absent key.
\<close>

definition redis_Nil :: error where
  "redis_Nil = Err ''redis: nil''"

text \<open>
  \<open>RedisCache.Get\<close>. \<open>reply\<close> is what \<open>c.client.Get(ctx, key).Result()\<close> returned: the
  stored text, or an error. \<open>json_Unmarshal\<close> is \<open>json.Unmarshal\<close> into the type of
  \<open>dest\<close>: it returns its error and what it left in \<open>dest\<close>. The result is the error
  returned (\<open>None\<close> is \<open>nil\<close>) and the destination after the call.
\<close>

definition RedisCache_Get ::
  "('b \<Rightarrow> 'd \<Rightarrow> error option \<times> 'd) \<Rightarrow> error + 'b \<Rightarrow> 'd \<Rightarrow> error option \<times> 'd" where
  "RedisCache_Get json_Unmarshal reply dest =
     (case reply of
        Inl err \<Rightarrow> (if err = redis_Nil then (None, dest) else (Some err, dest))
      | Inr val \<Rightarrow> json_Unmarshal val dest)"

text \<open>
  \<open>InMemoryCache.Get\<close>. \<open>reply\<close> is what \<open>c.client.Get(key)\<close> of go-cache returned:
  \<open>None\<close> when \<open>found\<close> is false, the stored value otherwise.
\<close>

definition InMemoryCache_Get ::
  "('v \<Rightarrow> error + 'b) \<Rightarrow> ('b \<Rightarrow> 'd \<Rightarrow> error option \<times> 'd) \<Rightarrow> 'v option \<Rightarrow> 'd \<Rightarrow> error option \<times> 'd" where
  "InMemoryCache_Get json_Marshal json_Unmarshal reply dest =
     (case reply of
        None \<Rightarrow> (None, dest)
      | Some val \<Rightarrow>
          (case json_Marshal val of
             Inl err \<Rightarrow> (Some err, dest)
           | Inr data \<Rightarrow> json_Unmarshal data dest))"

section \<open>The world of the repositories: cache, store, call log\<close>

text \<open>
  What a cache entry holds: the JSON text of one of the values the repositories cache.
  It is kept as the value it encodes.
\<close>

datatype cache_value =
  VStock stock | VStocks "stock list" | VNews news | VNewsList "news list"

datatype backend = RedisBackend | InMemoryBackend

text \<open>The calls a repository makes on its collaborators, in the order it makes them.\<close>

datatype event =
    EvCacheGet string
  | EvCacheSet string cache_value int
  | EvFindOneStock string
  | EvInsertOneStock stock
  | EvReplaceOneStock string stock
  | EvFindOneNews string
  | EvInsertOneNews news
  | EvReplaceOneNews string news
  | EvFindNewsByDate time time
  | EvMOEXGetStock string
  | EvNewsAPIGetTodayNews

text \<open>
  \<open>cache_items\<close> maps a key to its entry and the TTL it was set with (expiry is not
  modelled: no time passes during a call). \<open>stocks_coll\<close> and \<open>news_coll\<close> are the
  documents of the two Mongo collections in insertion order. \<open>cache_faults\<close> and
  \<open>db_faults\<close> say, call by call, whether the next call on the Redis server and on
  the database fails for lack of the backend (an exhausted list means no failure).
  \<open>trace\<close> is the call log.
\<close>

record world =
  cache_backend :: backend
  cache_items :: "string \<rightharpoonup> cache_value \<times> int"
  cache_faults :: "bool list"
  stocks_coll :: "stock list"
  news_coll :: "news list"
  db_faults :: "bool list"
  trace :: "event list"

definition next_fault :: "bool list \<Rightarrow> bool \<times> bool list" where
  "next_fault fs = (case fs of [] \<Rightarrow> (False, []) | f # rest \<Rightarrow> (f, rest))"

definition log_event :: "event \<Rightarrow> world \<Rightarrow> world" where
  "log_event e w = w\<lparr>trace := trace w @ [e]\<rparr>"

definition redis_unavailable :: error where
  "redis_unavailable = Err ''redis: connection refused''"

definition mongo_unavailable :: error where
  "mongo_unavailable = Err ''mongo: server selection error''"

definition mongo_ErrNoDocuments :: error where
  "mongo_ErrNoDocuments = Err ''mongo: no documents in result''"

definition mongo_duplicate_key :: error where
  "mongo_duplicate_key = Err ''mongo: duplicate key error''"

definition json_type_error :: error where
  "json_type_error = Err ''json: cannot unmarshal into Go value''"

text \<open>\<open>json.Unmarshal\<close> of a cache entry into a destination of each of the four types.\<close>

definition unmarshal_Stock :: "cache_value \<Rightarrow> stock \<Rightarrow> error option \<times> stock" where
  "unmarshal_Stock v dest = (case v of VStock x \<Rightarrow> (None, x) | _ \<Rightarrow> (Some json_type_error, dest))"

definition unmarshal_News :: "cache_value \<Rightarrow> news \<Rightarrow> error option \<times> news" where
  "unmarshal_News v dest = (case v of VNews x \<Rightarrow> (None, x) | _ \<Rightarrow> (Some json_type_error, dest))"

definition unmarshal_NewsList :: "cache_value \<Rightarrow> news list \<Rightarrow> error option \<times> news list" where
  "unmarshal_NewsList v dest =
     (case v of VNewsList x \<Rightarrow> (None, x) | _ \<Rightarrow> (Some json_type_error, dest))"

text \<open>
  \<open>cache.Get(ctx, key, &dest)\<close> through the \<open>Cache\<close> interface: the call goes to the
  backend the server was started with.
\<close>

definition cache_Get ::
  "(cache_value \<Rightarrow> 'd \<Rightarrow> error option \<times> 'd) \<Rightarrow> string \<Rightarrow> 'd \<Rightarrow> world \<Rightarrow> (error option \<times> 'd) \<times> world" where
  "cache_Get json_Unmarshal key dest w =
     (case cache_backend w of
        RedisBackend \<Rightarrow>
          (let (fault, rest) = next_fault (cache_faults w);
               reply = (if fault then Inl redis_unavailable
                        else case cache_items w key of
                               None \<Rightarrow> Inl redis_Nil
                             | Some (v, ttl) \<Rightarrow> Inr v)
           in (RedisCache_Get json_Unmarshal reply dest,
               log_event (EvCacheGet key) (w\<lparr>cache_faults := rest\<rparr>)))
      | InMemoryBackend \<Rightarrow>
          (InMemoryCache_Get Inr json_Unmarshal (map_option fst (cache_items w key)) dest,
           log_event (EvCacheGet key) w))"

text \<open>
  \<open>cache.Set(ctx, key, value, ttl)\<close>: \<open>RedisCache.Set\<close> returns the error of the
  server, \<open>InMemoryCache.Set\<close> returns nil. Both overwrite.
\<close>

definition cache_Set :: "string \<Rightarrow> cache_value \<Rightarrow> int \<Rightarrow> world \<Rightarrow> error option \<times> world" where
  "cache_Set key val ttl w =
     (case cache_backend w of
        RedisBackend \<Rightarrow>
          (let (fault, rest) = next_fault (cache_faults w);
               w' = log_event (EvCacheSet key val ttl) (w\<lparr>cache_faults := rest\<rparr>)
           in if fault then (Some redis_unavailable, w')
              else (None, w'\<lparr>cache_items := (cache_items w')(key \<mapsto> (val, ttl))\<rparr>))
      | InMemoryBackend \<Rightarrow>
          (let w' = log_event (EvCacheSet key val ttl) w
           in (None, w'\<lparr>cache_items := (cache_items w')(key \<mapsto> (val, ttl))\<rparr>)))"

text \<open>
  The calls on the collection \<open>stocks\<close>. \<open>FindOne\<close> gives the first document with the
  ticker or \<open>mongo.ErrNoDocuments\<close>; \<open>InsertOne\<close> appends (no index makes the ticker
  unique); \<open>ReplaceOne\<close> replaces the first document with the ticker, if there is one.
\<close>

fun replace_first :: "('a \<Rightarrow> bool) \<Rightarrow> 'a \<Rightarrow> 'a list \<Rightarrow> 'a list" where
  "replace_first P y [] = []"
| "replace_first P y (x # xs) = (if P x then y # xs else x # replace_first P y xs)"

definition db_FindOne_stock :: "string \<Rightarrow> world \<Rightarrow> (error + stock) \<times> world" where
  "db_FindOne_stock ticker w =
     (let (fault, rest) = next_fault (db_faults w);
          w' = log_event (EvFindOneStock ticker) (w\<lparr>db_faults := rest\<rparr>)
      in if fault then (Inl mongo_unavailable, w')
         else case find (\<lambda>d. Ticker d = ticker) (stocks_coll w) of
                None \<Rightarrow> (Inl mongo_ErrNoDocuments, w')
              | Some d \<Rightarrow> (Inr d, w'))"

definition db_InsertOne_stock :: "stock \<Rightarrow> world \<Rightarrow> error option \<times> world" where
  "db_InsertOne_stock doc w =
     (let (fault, rest) = next_fault (db_faults w);
          w' = log_event (EvInsertOneStock doc) (w\<lparr>db_faults := rest\<rparr>)
      in if fault then (Some mongo_unavailable, w')
         else (None, w'\<lparr>stocks_coll := stocks_coll w' @ [doc]\<rparr>))"

definition db_ReplaceOne_stock :: "string \<Rightarrow> stock \<Rightarrow> world \<Rightarrow> error option \<times> world" where
  "db_ReplaceOne_stock ticker doc w =
     (let (fault, rest) = next_fault (db_faults w);
          w' = log_event (EvReplaceOneStock ticker doc) (w\<lparr>db_faults := rest\<rparr>)
      in if fault then (Some mongo_unavailable, w')
         else (None, w'\<lparr>stocks_coll := replace_first (\<lambda>d. Ticker d = ticker) doc (stocks_coll w')\<rparr>))"

text \<open>
  The calls on the collection \<open>news\<close>. The \<open>ID\<close> of a news item is its \<open>_id\<close>, which
  Mongo keeps unique: \<open>InsertOne\<close> of an \<open>_id\<close> that is present fails.
\<close>

definition db_FindOne_news :: "string \<Rightarrow> world \<Rightarrow> (error + news) \<times> world" where
  "db_FindOne_news nid w =
     (let (fault, rest) = next_fault (db_faults w);
          w' = log_event (EvFindOneNews nid) (w\<lparr>db_faults := rest\<rparr>)
      in if fault then (Inl mongo_unavailable, w')
         else case find (\<lambda>d. ID d = nid) (news_coll w) of
                None \<Rightarrow> (Inl mongo_ErrNoDocuments, w')
              | Some d \<Rightarrow> (Inr d, w'))"

definition db_InsertOne_news :: "news \<Rightarrow> world \<Rightarrow> error option \<times> world" where
  "db_InsertOne_news doc w =
     (let (fault, rest) = next_fault (db_faults w);
          w' = log_event (EvInsertOneNews doc) (w\<lparr>db_faults := rest\<rparr>)
      in if fault then (Some mongo_unavailable, w')
         else if ID doc \<in> set (map ID (news_coll w')) then (Some mongo_duplicate_key, w')
         else (None, w'\<lparr>news_coll := news_coll w' @ [doc]\<rparr>))"

definition db_ReplaceOne_news :: "string \<Rightarrow> news \<Rightarrow> world \<Rightarrow> error option \<times> world" where
  "db_ReplaceOne_news nid doc w =
     (let (fault, rest) = next_fault (db_faults w);
          w' = log_event (EvReplaceOneNews nid doc) (w\<lparr>db_faults := rest\<rparr>)
      in if fault then (Some mongo_unavailable, w')
         else (None, w'\<lparr>news_coll := replace_first (\<lambda>d. ID d = nid) doc (news_coll w')\<rparr>))"

text \<open>
  \<open>Find\<close> with the filter \<open>published_at >= startDate, published_at < endDate\<close>, followed
  by \<open>cursor.All\<close>; the collection holds news documents only, so decoding does not fail.
\<close>

definition db_Find_news_by_date :: "time \<Rightarrow> time \<Rightarrow> world \<Rightarrow> (error + news list) \<times> world" where
  "db_Find_news_by_date startDate endDate w =
     (let (fault, rest) = next_fault (db_faults w);
          w' = log_event (EvFindNewsByDate startDate endDate) (w\<lparr>db_faults := rest\<rparr>)
      in if fault then (Inl mongo_unavailable, w')
         else (Inr (filter (\<lambda>d. instant startDate \<le> instant (PublishedAt d)
                               \<and> instant (PublishedAt d) < instant endDate) (news_coll w)), w'))"

section \<open>Calendar days of a \<open>time.Time\<close>\<close>

definition day_ns :: int where
  "day_ns = 86400000000000"

text \<open>
  \<open>t.Truncate(24 * time.Hour)\<close> rounds the instant down to a multiple of 24 hours since
  the zero time and keeps the location. The zero time (1 January of year 1, 00:00 UTC) lies
  a whole number of days before the Unix epoch, so the multiples are the UTC midnights.
\<close>

definition Truncate24h :: "time \<Rightarrow> time" where
  "Truncate24h t = t\<lparr>instant := instant t - instant t mod day_ns\<rparr>"

definition Add :: "time \<Rightarrow> int \<Rightarrow> time" where
  "Add t d = t\<lparr>instant := instant t + d\<rparr>"

text \<open>
  The number of the calendar day that \<open>t\<close> shows in its location. \<open>t.Year()\<close>,
  \<open>t.Month()\<close> and \<open>t.Day()\<close> together are this number in another notation, and so is
  the text \<open>t.Format("2006-01-02")\<close>, which stands here as the number in decimal.
\<close>

definition local_day :: "time \<Rightarrow> int" where
  "local_day t = (instant t + zone t) div day_ns"

definition Format_date :: "time \<Rightarrow> string" where
  "Format_date t = Sprintf_d (local_day t)"



section \<open>StockRepositoryImpl\<close>

text \<open>
  The fields of the repository that its methods read. \<open>moexAPI_GetStock\<close> is the outcome
  of \<open>r.moexAPI.GetStock(ctx, ticker)\<close>; the HTTP exchange of the client and the cache
  entries \<open>moex:stock:...\<close> it keeps for itself are outside the model.
\<close>

record StockRepositoryImpl =
  cacheExpiry :: int
  useCache :: bool
  moexAPI_GetStock :: "string \<Rightarrow> error + stock"

definition msg_moex :: string where
  "msg_moex = ''error getting data from MOEX API''"

definition msg_db_save :: string where
  "msg_db_save = ''error saving to the database''"

definition msg_db_find :: string where
  "msg_db_find = ''error searching the database''"

definition msg_nil_stock :: string where
  "msg_nil_stock = ''stock must not be nil''"

definition fetchStockFromAPI :: "StockRepositoryImpl \<Rightarrow> string \<Rightarrow> world \<Rightarrow> (error + stock) \<times> world" where
  "fetchStockFromAPI r ticker w =
     (case moexAPI_GetStock r ticker of
        Inl err \<Rightarrow> (Inl (Wrap msg_moex err), log_event (EvMOEXGetStock ticker) w)
      | Inr stock \<Rightarrow> (Inr stock, log_event (EvMOEXGetStock ticker) w))"


text \<open>
  \<open>SaveStock\<close>. The argument is a pointer (\<open>None\<close> is nil); \<open>now\<close> is the value of
  \<open>time.Now()\<close> that the method writes into \<open>UpdatedAt\<close>.
\<close>

definition SaveStock :: "StockRepositoryImpl \<Rightarrow> time \<Rightarrow> stock option \<Rightarrow> world \<Rightarrow> error option \<times> world" where
  "SaveStock r now stock w =
     (case stock of
        None \<Rightarrow> (Some (Err msg_nil_stock), w)
      | Some stock \<Rightarrow>
          (let stock = stock\<lparr>UpdatedAt := now\<rparr>;
               (existing, w1) = db_FindOne_stock (Ticker stock) w;
               (err, w2) = (case existing of
                              Inr _ \<Rightarrow> db_ReplaceOne_stock (Ticker stock) stock w1
                            | Inl _ \<Rightarrow> db_InsertOne_stock stock w1)
           in case err of
                Some e \<Rightarrow> (Some (Wrap msg_db_save e), w2)
              | None \<Rightarrow>
                  (None,
                   if useCache r
                   then snd (cache_Set (''stock:'' @ Ticker stock) (VStock stock) (cacheExpiry r) w2)
                   else w2)))"

section \<open>NewsRepositoryImpl\<close>

text \<open>
  \<open>newsAPI_GetTodayNews\<close> is the outcome of \<open>r.newsAPI.GetTodayNews(ctx)\<close>.
\<close>

record NewsRepositoryImpl =
  news_cacheExpiry :: int
  news_useCache :: bool
  newsAPI_GetTodayNews :: "error + news list"

definition msg_newsapi :: string where
  "msg_newsapi = ''error getting data from NewsAPI''"

definition msg_nil_news :: string where
  "msg_nil_news = ''news must not be nil''"

definition SaveNews :: "NewsRepositoryImpl \<Rightarrow> news option \<Rightarrow> world \<Rightarrow> error option \<times> world" where
  "SaveNews r news w =
     (case news of
        None \<Rightarrow> (Some (Err msg_nil_news), w)
      | Some news \<Rightarrow>
          (let (existing, w1) = db_FindOne_news (ID news) w;
               (err, w2) = (case existing of
                              Inr _ \<Rightarrow> db_ReplaceOne_news (ID news) news w1
                            | Inl _ \<Rightarrow> db_InsertOne_news news w1)
           in case err of
                Some e \<Rightarrow> (Some (Wrap msg_db_save e), w2)
              | None \<Rightarrow>
                  (None,
                   if news_useCache r
                   then snd (cache_Set (''news:'' @ ID news) (VNews news) (news_cacheExpiry r) w2)
                   else w2)))"

text \<open>The loop \<open>for i := range news { r.SaveNews(ctx, &news[i]) }\<close>; the errors are dropped.\<close>

fun save_each :: "NewsRepositoryImpl \<Rightarrow> news list \<Rightarrow> world \<Rightarrow> world" where
  "save_each r [] w = w"
| "save_each r (n # ns) w = save_each r ns (snd (SaveNews r (Some n) w))"

definition fetchTodayNewsFromAPI :: "NewsRepositoryImpl \<Rightarrow> time \<Rightarrow> world \<Rightarrow> (error + news list) \<times> world" where
  "fetchTodayNewsFromAPI r now w =
     (case newsAPI_GetTodayNews r of
        Inl err \<Rightarrow> (Inl (Wrap msg_newsapi err), log_event EvNewsAPIGetTodayNews w)
      | Inr news \<Rightarrow>
          (let w1 = save_each r news (log_event EvNewsAPIGetTodayNews w);
               w2 = (if news_useCache r \<and> length news > 0
                     then snd (cache_Set (''news:date:'' @ Format_date now) (VNewsList news)
                                 (news_cacheExpiry r) w1)
                     else w1)
           in (Inr news, w2)))"

text \<open>
  \<open>GetNewsByDate\<close>; \<open>now\<close> is the value of \<open>time.Now()\<close> during the call. The test
  \<open>startDate.Year() == time.Now().Year() && startDate.Month() == time.Now().Month() &&
  startDate.Day() == time.Now().Day()\<close> compares the calendar days that the two times show,
  each in its own location.
\<close>

definition GetNewsByDate :: "NewsRepositoryImpl \<Rightarrow> time \<Rightarrow> time \<Rightarrow> world \<Rightarrow> (error + news list) \<times> world" where
  "GetNewsByDate r now date w =
     (let startDate = Truncate24h date;
          endDate = Add startDate day_ns;
          cacheKey = ''news:date:'' @ Format_date startDate;
          (cached, w1) =
             (if news_useCache r
              then (case cache_Get unmarshal_NewsList cacheKey [] w of
                      ((err, cachedNews), w') \<Rightarrow>
                        (if err = None \<and> length cachedNews > 0 then Some cachedNews else None, w'))
              else (None, w))
      in case cached of
           Some cachedNews \<Rightarrow> (Inr cachedNews, w1)
         | None \<Rightarrow>
            (case db_Find_news_by_date startDate endDate w1 of
               (Inl err, w2) \<Rightarrow> (Inl (Wrap msg_db_find err), w2)
             | (Inr news, w2) \<Rightarrow>
                 if length news > 0
                 then (Inr news,
                       if news_useCache r
                       then snd (cache_Set cacheKey (VNewsList news) (news_cacheExpiry r) w2)
                       else w2)
                 else if local_day startDate = local_day now
                 then fetchTodayNewsFromAPI r now w2
                 else (Inr [], w2)))"

definition GetNewsForToday :: "NewsRepositoryImpl \<Rightarrow> time \<Rightarrow> world \<Rightarrow> (error + news list) \<times> world" where
  "GetNewsForToday r now w = GetNewsByDate r now now w"

section \<open>Example inputs\<close>

definition epoch :: time where
  "epoch = \<lparr>instant = 0, zone = 0\<rparr>"

definition stock_SBER :: stock where
  "stock_SBER = \<lparr>Ticker = ''SBER'', Name = ''Sberbank'', Price = Finite 300,
     Change = Finite 3, ChangePerc = Finite 1, Volume = 1000, UpdatedAt = epoch\<rparr>"

definition stock_GAZP :: stock where
  "stock_GAZP = \<lparr>Ticker = ''GAZP'', Name = ''Gazprom'', Price = Finite 150,
     Change = Finite (-3), ChangePerc = Finite (-2), Volume = 500000, UpdatedAt = epoch\<rparr>"

definition stock_LKOH :: stock where
  "stock_LKOH = \<lparr>Ticker = ''LKOH'', Name = ''Lukoil'', Price = Finite 7000,
     Change = Finite 350, ChangePerc = Finite 5, Volume = 200, UpdatedAt = epoch\<rparr>"

definition example_universe :: "stock list" where
  "example_universe = [stock_SBER, stock_GAZP, stock_LKOH]"

text \<open>
  A universe of three stocks whose percent changes are 1, not-a-number and 2, as a provider
  answer with the cell \<open>NaN\<close> gives it.
\<close>

definition stock_ONE :: stock where
  "stock_ONE = \<lparr>Ticker = ''ONE'', Name = ''One'', Price = Finite 10, Change = Finite 1,
     ChangePerc = Finite 1, Volume = 10, UpdatedAt = epoch\<rparr>"

definition stock_NAN :: stock where
  "stock_NAN = \<lparr>Ticker = ''NAN'', Name = ''Nan'', Price = Finite 10, Change = Finite 0,
     ChangePerc = NaN, Volume = 10, UpdatedAt = epoch\<rparr>"

definition stock_TWO :: stock where
  "stock_TWO = \<lparr>Ticker = ''TWO'', Name = ''Two'', Price = Finite 10, Change = Finite 2,
     ChangePerc = Finite 2, Volume = 10, UpdatedAt = epoch\<rparr>"

definition nan_universe :: "stock list" where
  "nan_universe = [stock_ONE, stock_NAN, stock_TWO]"

definition nan_stock_repo :: "unit StockRepository" where
  "nan_stock_repo =
     \<lparr>repo_GetStock = (\<lambda>ticker s. (Inl (Err ''not found''), s)),
      repo_GetStocks = (\<lambda>tickers s. (Inr nan_universe, s))\<rparr>"

text \<open>A repository stub that serves the example universe and has no state.\<close>

definition example_stock_repo :: "unit StockRepository" where
  "example_stock_repo =
     \<lparr>repo_GetStock = (\<lambda>ticker s. (Inl (Err ''not found''), s)),
      repo_GetStocks = (\<lambda>tickers s. (Inr example_universe, s))\<rparr>"

definition news_both :: news where
  "news_both = \<lparr>ID = ''sber-gazp-deal'', Title = ''Deal'', Description = ''A deal'',
     Content = ''Text'', URL = ''https://example.ru/news/sber-gazp-deal.html'',
     Source = ''rbc'', PublishedAt = \<lparr>instant = 200, zone = 0\<rparr>, CreatedAt = epoch,
     Tags = [], RelatedTo = [''SBER'', ''GAZP'']\<rparr>"

definition news_lkoh :: news where
  "news_lkoh = \<lparr>ID = ''lkoh-results'', Title = ''Results'', Description = ''Quarter'',
     Content = ''Text'', URL = ''https://example.ru/news/lkoh-results.html'',
     Source = ''rbc'', PublishedAt = \<lparr>instant = 300, zone = 0\<rparr>, CreatedAt = epoch,
     Tags = [], RelatedTo = [''LKOH'']\<rparr>"

definition news_old :: news where
  "news_old = \<lparr>ID = ''market-open'', Title = ''Open'', Description = ''Market'',
     Content = ''Text'', URL = ''https://example.ru/news/market-open.html'',
     Source = ''rbc'', PublishedAt = \<lparr>instant = 100, zone = 0\<rparr>, CreatedAt = epoch,
     Tags = [], RelatedTo = []\<rparr>"

definition example_news :: "news list" where
  "example_news = [news_old, news_both, news_lkoh, news_both]"

definition example_news_repo :: "unit NewsRepository" where
  "example_news_repo =
     \<lparr>repo_GetNewsForToday = (\<lambda>s. (Inr example_news, s)),
      repo_GetNewsByKeyword = (\<lambda>keyword s. (Inr [], s))\<rparr>"

definition empty_world :: world where
  "empty_world = \<lparr>cache_backend = RedisBackend, cache_items = Map.empty, cache_faults = [],
     stocks_coll = [], news_coll = [], db_faults = [], trace = []\<rparr>"


definition example_stock_impl :: StockRepositoryImpl where
  "example_stock_impl = \<lparr>cacheExpiry = 900000000000, useCache = True,
     moexAPI_GetStock = (\<lambda>ticker. if ticker = ''GAZP'' then Inr stock_GAZP
                                   else Inl (Err ''MOEX API error: 404 Not Found''))\<rparr>"

definition example_news_impl :: NewsRepositoryImpl where
  "example_news_impl = \<lparr>news_cacheExpiry = 1800000000000, news_useCache = True,
     newsAPI_GetTodayNews = Inr [news_lkoh]\<rparr>"

text \<open>
  Two times in a location three hours east of UTC: 1 January 2024, 23:30, and
  2 January 2024, 01:00.
\<close>

definition msk_jan1_2330 :: time where
  "msk_jan1_2330 = \<lparr>instant = 1704141000000000000, zone = 10800000000000\<rparr>"

definition msk_jan2_0100 :: time where
  "msk_jan2_0100 = \<lparr>instant = 1704146400000000000, zone = 10800000000000\<rparr>"

section \<open>Verification\<close>

subsection \<open>The bubble sort sorts\<close>

lemma length_bubble_inner: "length (bubble_inner swp j b xs) = length xs"
  by (induction swp j b xs rule: bubble_inner.induct) (subst bubble_inner.simps, simp)

lemma mset_bubble_inner: "b < length xs \<Longrightarrow> mset (bubble_inner swp j b xs) = mset xs"
proof (induction swp j b xs rule: bubble_inner.induct)
  case (1 swp j b xs)
  show ?case
  proof (cases "j < b")
    case True
    let ?ys = "(if swp (xs ! j) (xs ! (j + 1)) then xs[j := xs ! (j + 1), j + 1 := xs ! j] else xs)"
    have len: "length ?ys = length xs" by simp
    have ms: "mset ?ys = mset xs" using True "1.prems" by (simp add: mset_swap)
    have "mset (bubble_inner swp (j + 1) b ?ys) = mset ?ys"
      using "1.IH"[OF True] "1.prems" len by simp
    then show ?thesis using True ms by (subst bubble_inner.simps) simp
  next
    case False
    then show ?thesis by (subst bubble_inner.simps) simp
  qed
qed

lemma bubble_inner_above: "b < k \<Longrightarrow> bubble_inner swp j b xs ! k = xs ! k"
proof (induction swp j b xs rule: bubble_inner.induct)
  case (1 swp j b xs)
  show ?case
  proof (cases "j < b")
    case True
    let ?ys = "(if swp (xs ! j) (xs ! (j + 1)) then xs[j := xs ! (j + 1), j + 1 := xs ! j] else xs)"
    have "?ys ! k = xs ! k" using True "1.prems" by simp
    moreover have "bubble_inner swp (j + 1) b ?ys ! k = ?ys ! k"
      using "1.IH"[OF True "1.prems"] .
    ultimately show ?thesis using True by (subst bubble_inner.simps) simp
  next
    case False
    then show ?thesis by (subst bubble_inner.simps) simp
  qed
qed

lemma bubble_inner_max:
  assumes tot: "\<And>x y. swp x y \<Longrightarrow> \<not> swp y x"
    and tr: "\<And>x y z. \<not> swp x y \<Longrightarrow> \<not> swp y z \<Longrightarrow> \<not> swp x z"
  shows "b < length xs \<Longrightarrow> j \<le> b \<Longrightarrow> (\<forall>k<j. \<not> swp (xs ! k) (xs ! j))
     \<Longrightarrow> (\<forall>k<b. \<not> swp (bubble_inner swp j b xs ! k) (bubble_inner swp j b xs ! b))"
  using tot tr
proof (induction swp j b xs rule: bubble_inner.induct)
  case (1 swp j b xs)
  note tot = "1.prems"(4) and tr = "1.prems"(5)
  show ?case
  proof (cases "j < b")
    case True
    let ?ys = "(if swp (xs ! j) (xs ! (j + 1)) then xs[j := xs ! (j + 1), j + 1 := xs ! j] else xs)"
    have len: "b < length ?ys" using "1.prems"(1) by simp
    have inv: "\<forall>k<j + 1. \<not> swp (?ys ! k) (?ys ! (j + 1))"
    proof (intro allI impI)
      fix k assume k: "k < j + 1"
      show "\<not> swp (?ys ! k) (?ys ! (j + 1))"
      proof (cases "swp (xs ! j) (xs ! (j + 1))")
        case sw: True
        have ys: "?ys = xs[j := xs ! (j + 1), j + 1 := xs ! j]" using sw by simp
        have top: "?ys ! (j + 1) = xs ! j" using ys True "1.prems"(1) by simp
        show ?thesis
        proof (cases "k = j")
          case True
          then have "?ys ! k = xs ! (j + 1)" using ys \<open>j < b\<close> "1.prems"(1) by simp
          then show ?thesis using top tot[OF sw] by simp
        next
          case False
          then have kj: "k < j" using k by simp
          then have "?ys ! k = xs ! k" using ys by simp
          then show ?thesis using top "1.prems"(3) kj by simp
        qed
      next
        case ns: False
        have ys: "?ys = xs" using ns by simp
        show ?thesis
        proof (cases "k = j")
          case True
          then show ?thesis using ys ns by simp
        next
          case False
          then have kj: "k < j" using k by simp
          then have "\<not> swp (xs ! k) (xs ! j)" using "1.prems"(3) by simp
          then show ?thesis using tr[OF _ ns] ys by simp
        qed
      qed
    qed
    have "\<forall>k<b. \<not> swp (bubble_inner swp (j + 1) b ?ys ! k) (bubble_inner swp (j + 1) b ?ys ! b)"
      using "1.IH"[OF True len _ inv tot tr] True by simp
    then show ?thesis using True by (subst (1 2) bubble_inner.simps) simp
  next
    case False
    then have "j = b" using "1.prems"(2) by simp
    then show ?thesis using "1.prems"(3) by (subst (1 2) bubble_inner.simps) simp
  qed
qed


lemma bubble_inner_prefix:
  assumes "b < length xs"
  shows "set (take (Suc b) (bubble_inner swp j b xs)) = set (take (Suc b) xs)"
proof -
  let ?ys = "bubble_inner swp j b xs"
  have len: "length ?ys = length xs" by (rule length_bubble_inner)
  have "drop (Suc b) ?ys = drop (Suc b) xs"
    by (rule nth_equalityI) (simp_all add: len bubble_inner_above)
  moreover have "mset (take (Suc b) ?ys) + mset (drop (Suc b) ?ys) = mset (take (Suc b) xs) + mset (drop (Suc b) xs)"
    using mset_bubble_inner[OF assms, of swp j] by (simp add: union_code)
  ultimately have "mset (take (Suc b) ?ys) = mset (take (Suc b) xs)" by simp
  then show ?thesis by (rule mset_eq_setD)
qed

lemma length_bubble_outer: "length (bubble_outer swp n i xs) = length xs"
  by (induction swp n i xs rule: bubble_outer.induct)
     (subst bubble_outer.simps, simp add: length_bubble_inner)

lemma mset_bubble_outer: "length xs = n \<Longrightarrow> mset (bubble_outer swp n i xs) = mset xs"
proof (induction swp n i xs rule: bubble_outer.induct)
  case (1 swp n i xs)
  show ?case
  proof (cases "i + 1 < n")
    case True
    then have "mset (bubble_inner swp 0 (n - i - 1) xs) = mset xs"
      using "1.prems" by (intro mset_bubble_inner) simp
    then show ?thesis
      using True "1.IH"[OF True] "1.prems"
      by (subst bubble_outer.simps) (simp add: length_bubble_inner)
  next
    case False
    then show ?thesis by (subst bubble_outer.simps) simp
  qed
qed

lemma bubble_outer_sorted:
  assumes tot: "\<And>x y. swp x y \<Longrightarrow> \<not> swp y x"
    and tr: "\<And>x y z. \<not> swp x y \<Longrightarrow> \<not> swp y z \<Longrightarrow> \<not> swp x z"
  shows "length xs = n \<Longrightarrow>
     (\<forall>k l. k < l \<and> l < n \<and> n - i \<le> l \<longrightarrow> \<not> swp (xs ! k) (xs ! l)) \<Longrightarrow>
     sorted_wrt (\<lambda>a b. \<not> swp a b) (bubble_outer swp n i xs)"
  using tot tr
proof (induction swp n i xs rule: bubble_outer.induct)
  case (1 swp n i xs)
  note tot = "1.prems"(3) and tr = "1.prems"(4)
  show ?case
  proof (cases "i + 1 < n")
    case True
    define b where "b = n - i - 1"
    define ys where "ys = bubble_inner swp 0 b xs"
    have b: "b < length xs" using True "1.prems"(1) by (simp add: b_def)
    have len: "length ys = n" using "1.prems"(1) by (simp add: ys_def length_bubble_inner)
    have top: "\<forall>k<b. \<not> swp (ys ! k) (ys ! b)"
      unfolding ys_def by (rule bubble_inner_max[OF tot tr b]) simp_all
    have inv: "\<forall>k l. k < l \<and> l < n \<and> n - (i + 1) \<le> l \<longrightarrow> \<not> swp (ys ! k) (ys ! l)"
    proof (intro allI impI)
      fix k l assume h: "k < l \<and> l < n \<and> n - (i + 1) \<le> l"
      then have bl: "b \<le> l" by (simp add: b_def)
      show "\<not> swp (ys ! k) (ys ! l)"
      proof (cases "l = b")
        case True
        then show ?thesis using top h by simp
      next
        case False
        then have lb: "b < l" using bl by simp
        then have yl: "ys ! l = xs ! l" by (simp add: ys_def bubble_inner_above)
        have nl: "n - i \<le> l" using lb True by (simp add: b_def)
        show ?thesis
        proof (cases "b < k")
          case True
          then have "ys ! k = xs ! k" by (simp add: ys_def bubble_inner_above)
          then show ?thesis using yl "1.prems"(2) h nl by simp
        next
          case False
          then have "ys ! k \<in> set (take (Suc b) ys)"
            using len h b "1.prems"(1) by (auto simp: in_set_conv_nth intro!: exI[of _ k])
          then have "ys ! k \<in> set (take (Suc b) xs)"
            by (simp add: ys_def bubble_inner_prefix[OF b])
          then obtain k' where k': "k' < Suc b" "k' < length xs" "xs ! k' = ys ! k"
            by (auto simp: in_set_conv_nth)
          then have "k' < l" using lb by simp
          then have "\<not> swp (xs ! k') (xs ! l)" using "1.prems"(2) h nl by simp
          then show ?thesis using k' yl by simp
        qed
      qed
    qed
    have "sorted_wrt (\<lambda>a b. \<not> swp a b) (bubble_outer swp n (i + 1) ys)"
      using "1.IH"[OF True _ _ tot tr] len inv by (simp add: ys_def b_def)
    then show ?thesis using True by (subst bubble_outer.simps) (simp add: ys_def b_def)
  next
    case False
    have "\<forall>k l. k < l \<longrightarrow> l < length xs \<longrightarrow> \<not> swp (xs ! k) (xs ! l)"
    proof (intro allI impI)
      fix k l :: nat assume "k < l" "l < length xs"
      moreover then have "n - i \<le> l" using False by simp
      ultimately show "\<not> swp (xs ! k) (xs ! l)" using "1.prems"(1,2) by simp
    qed
    then have "sorted_wrt (\<lambda>a b. \<not> swp a b) xs" by (simp add: sorted_wrt_iff_nth_less)
    then show ?thesis using False by (subst bubble_outer.simps) simp
  qed
qed

lemma bubble_sort_sorted:
  assumes "\<And>x y. swp x y \<Longrightarrow> \<not> swp y x"
    and "\<And>x y z. \<not> swp x y \<Longrightarrow> \<not> swp y z \<Longrightarrow> \<not> swp x z"
  shows "sorted_wrt (\<lambda>a b. \<not> swp a b) (bubble_sort swp xs)"
  unfolding bubble_sort_def by (rule bubble_outer_sorted[OF assms]) auto

lemma mset_bubble_sort: "mset (bubble_sort swp xs) = mset xs"
  by (simp add: bubble_sort_def mset_bubble_outer)

lemma length_bubble_sort: "length (bubble_sort swp xs) = length xs"
  by (simp add: bubble_sort_def length_bubble_outer)
lemma length_top_n: "0 \<le> limit \<Longrightarrow> length (top_n limit xs) = min (nat limit) (length xs)"
  by (simp add: top_n_def Let_def)

lemma top_n_take: "top_n limit xs = take (nat limit) xs"
  by (simp add: top_n_def Let_def)

subsection \<open>The sort reads the comparison on the elements of the list only\<close>

lemma set_bubble_inner: "b < length xs \<Longrightarrow> set (bubble_inner swp j b xs) = set xs"
  using mset_bubble_inner[of b xs swp j] by (metis mset_eq_setD)

lemma bubble_inner_cong:
  assumes agree: "\<And>x y. x \<in> set xs \<Longrightarrow> y \<in> set xs \<Longrightarrow> swp x y = swp' x y"
  shows "b < length xs \<Longrightarrow> bubble_inner swp j b xs = bubble_inner swp' j b xs"
  using agree
proof (induction swp j b xs rule: bubble_inner.induct)
  case (1 swp j b xs)
  note agree = "1.prems"(2)
  show ?case
  proof (cases "j < b")
    case True
    let ?ys = "(if swp (xs ! j) (xs ! (j + 1)) then xs[j := xs ! (j + 1), j + 1 := xs ! j] else xs)"
    have jl: "j < length xs" "j + 1 < length xs" using True "1.prems"(1) by simp_all
    have same: "swp (xs ! j) (xs ! (j + 1)) = swp' (xs ! j) (xs ! (j + 1))"
      using agree jl by simp
    have sety: "set ?ys = set xs"
      using jl set_swap[of "j + 1" xs j] by (simp add: list_update_swap)
    have leny: "b < length ?ys" using "1.prems"(1) by simp
    have "bubble_inner swp (j + 1) b ?ys = bubble_inner swp' (j + 1) b ?ys"
      using "1.IH"[OF True leny] agree sety by blast
    then show ?thesis
      using True same by (subst bubble_inner.simps, subst (2) bubble_inner.simps) simp
  next
    case False
    then show ?thesis by (subst bubble_inner.simps, subst (2) bubble_inner.simps) simp
  qed
qed

lemma bubble_outer_cong:
  assumes agree: "\<And>x y. x \<in> set xs \<Longrightarrow> y \<in> set xs \<Longrightarrow> swp x y = swp' x y"
  shows "length xs = n \<Longrightarrow> bubble_outer swp n i xs = bubble_outer swp' n i xs"
  using agree
proof (induction swp n i xs rule: bubble_outer.induct)
  case (1 swp n i xs)
  note agree = "1.prems"(2)
  show ?case
  proof (cases "i + 1 < n")
    case True
    let ?ys = "bubble_inner swp 0 (n - i - 1) xs"
    have b: "n - i - 1 < length xs" using True "1.prems"(1) by simp
    have eq: "?ys = bubble_inner swp' 0 (n - i - 1) xs"
      using bubble_inner_cong[OF agree b] by simp
    have sety: "set ?ys = set xs" by (rule set_bubble_inner[OF b])
    have leny: "length ?ys = n" using "1.prems"(1) by (simp add: length_bubble_inner)
    have "bubble_outer swp n (i + 1) ?ys = bubble_outer swp' n (i + 1) ?ys"
      using "1.IH"[OF True leny] agree sety by blast
    then show ?thesis
      using True eq by (subst bubble_outer.simps, subst (2) bubble_outer.simps) simp
  next
    case False
    then show ?thesis by (subst bubble_outer.simps, subst (2) bubble_outer.simps) simp
  qed
qed

lemma bubble_sort_cong:
  assumes "\<And>x y. x \<in> set xs \<Longrightarrow> y \<in> set xs \<Longrightarrow> swp x y = swp' x y"
  shows "bubble_sort swp xs = bubble_sort swp' xs"
  unfolding bubble_sort_def by (rule bubble_outer_cong[OF assms]) simp_all

subsection \<open>The order of float64\<close>

lemma f64_less_asym: "f64_less a b \<Longrightarrow> \<not> f64_less b a"
  by (cases a; cases b) auto

lemma f64_not_less_trans:
  "b \<noteq> NaN \<Longrightarrow> \<not> f64_less a b \<Longrightarrow> \<not> f64_less b c \<Longrightarrow> \<not> f64_less a c"
  by (cases a; cases b; cases c) auto

lemma f64_not_less: "a \<noteq> NaN \<Longrightarrow> b \<noteq> NaN \<Longrightarrow> \<not> f64_less a b \<Longrightarrow> f64_less b a \<or> a = b"
  by (cases a; cases b) auto

text \<open>
  On a list without not-a-number keys the sort by \<open>f64_less\<close> on the key leaves no element
  before one with a larger key, and the sort by \<open>f64_greater\<close> none before a smaller one.
\<close>

lemma bubble_sort_f64_desc:
  assumes nn: "\<forall>x \<in> set xs. key x \<noteq> NaN"
  shows "sorted_wrt (\<lambda>a b. f64_less (key b) (key a) \<or> key a = key b)
           (bubble_sort (\<lambda>a b. f64_less (key a) (key b)) xs)"
proof -
  define fx where "fx = (\<lambda>v. if v = NaN then NegInf else v)"
  define swp' where "swp' = (\<lambda>a b. f64_less (fx (key a)) (fx (key b)))"
  let ?swp = "\<lambda>a b. f64_less (key a) (key b)"
  have fixn: "fx v \<noteq> NaN" for v by (simp add: fx_def)
  have eq: "bubble_sort ?swp xs = bubble_sort swp' xs"
  proof (rule bubble_sort_cong)
    fix x y assume "x \<in> set xs" "y \<in> set xs"
    then show "f64_less (key x) (key y) = swp' x y" using nn by (simp add: swp'_def fx_def)
  qed
  have "sorted_wrt (\<lambda>a b. \<not> swp' a b) (bubble_sort swp' xs)"
  proof (rule bubble_sort_sorted)
    show "\<And>x y. swp' x y \<Longrightarrow> \<not> swp' y x"
      by (simp add: swp'_def f64_less_asym)
    show "\<And>x y z. \<not> swp' x y \<Longrightarrow> \<not> swp' y z \<Longrightarrow> \<not> swp' x z"
      unfolding swp'_def using f64_not_less_trans[OF fixn] by blast
  qed
  then have s: "sorted_wrt (\<lambda>a b. \<not> swp' a b) (bubble_sort ?swp xs)" by (simp add: eq)
  have mem: "set (bubble_sort ?swp xs) = set xs"
    using mset_bubble_sort[of ?swp xs] by (metis mset_eq_setD)
  show ?thesis
  proof (rule sorted_wrt_mono_rel[OF _ s])
    fix a b assume "a \<in> set (bubble_sort ?swp xs)" "b \<in> set (bubble_sort ?swp xs)" "\<not> swp' a b"
    then have "key a \<noteq> NaN" "key b \<noteq> NaN" "\<not> f64_less (key a) (key b)"
      using nn mem by (auto simp: swp'_def fx_def)
    then show "f64_less (key b) (key a) \<or> key a = key b" by (rule f64_not_less)
  qed
qed

lemma bubble_sort_f64_asc:
  assumes nn: "\<forall>x \<in> set xs. key x \<noteq> NaN"
  shows "sorted_wrt (\<lambda>a b. f64_less (key a) (key b) \<or> key a = key b)
           (bubble_sort (\<lambda>a b. f64_greater (key a) (key b)) xs)"
proof -
  define fx where "fx = (\<lambda>v. if v = NaN then NegInf else v)"
  define swp' where "swp' = (\<lambda>a b. f64_less (fx (key b)) (fx (key a)))"
  let ?swp = "\<lambda>a b. f64_greater (key a) (key b)"
  have fixn: "fx v \<noteq> NaN" for v by (simp add: fx_def)
  have eq: "bubble_sort ?swp xs = bubble_sort swp' xs"
  proof (rule bubble_sort_cong)
    fix x y assume "x \<in> set xs" "y \<in> set xs"
    then show "f64_greater (key x) (key y) = swp' x y"
      using nn by (simp add: swp'_def fx_def f64_greater_def)
  qed
  have "sorted_wrt (\<lambda>a b. \<not> swp' a b) (bubble_sort swp' xs)"
  proof (rule bubble_sort_sorted)
    show "\<And>x y. swp' x y \<Longrightarrow> \<not> swp' y x"
      by (simp add: swp'_def f64_less_asym)
    show "\<And>x y z. \<not> swp' x y \<Longrightarrow> \<not> swp' y z \<Longrightarrow> \<not> swp' x z"
      unfolding swp'_def using f64_not_less_trans[OF fixn] by blast
  qed
  then have s: "sorted_wrt (\<lambda>a b. \<not> swp' a b) (bubble_sort ?swp xs)" by (simp add: eq)
  have mem: "set (bubble_sort ?swp xs) = set xs"
    using mset_bubble_sort[of ?swp xs] by (metis mset_eq_setD)
  show ?thesis
  proof (rule sorted_wrt_mono_rel[OF _ s])
    fix a b assume "a \<in> set (bubble_sort ?swp xs)" "b \<in> set (bubble_sort ?swp xs)" "\<not> swp' a b"
    then have "key b \<noteq> NaN" "key a \<noteq> NaN" "\<not> f64_less (key b) (key a)"
      using nn mem by (auto simp: swp'_def fx_def)
    then have "f64_less (key a) (key b) \<or> key b = key a" by (rule f64_not_less)
    then show "f64_less (key a) (key b) \<or> key a = key b" by auto
  qed
qed

text \<open>
  Claim C2, as stated, at the universe whose percent changes are 1, not-a-number and 2: no
  comparison with not-a-number is true, the loops swap nothing, and \<open>GetMOEXTopGainers\<close>
  returns the stock with change 1 before the stock with change 2; with limit 1 it returns
  the stock with change 1 alone.
\<close>

theorem C2_nan_counterexample:
  "repo_GetStocks nan_stock_repo [] () = (Inr nan_universe, ())
   \<and> GetMOEXTopGainers nan_stock_repo 3 () = (Inr [stock_ONE, stock_NAN, stock_TWO], ())
   \<and> GetMOEXTopGainers nan_stock_repo 1 () = (Inr [stock_ONE], ())
   \<and> f64_less (ChangePerc stock_ONE) (ChangePerc stock_TWO)"
  by code_simp

text \<open>
  Claim C2, amended. For every limit \<open>N\<close> and every universe the repository returns in
  which no percent change is not-a-number, \<open>GetMOEXTopGainers\<close> returns the first
  \<open>min(N, size)\<close> elements of a rearrangement of the universe that is sorted by percent
  change descending, \<open>GetMOEXTopLosers\<close> the same for a rearrangement sorted ascending,
  and a non-positive \<open>N\<close> stands for 10 in both.
\<close>

theorem C2_top_gainers_losers:
  assumes "repo_GetStocks stockRepo [] s = (Inr universe, s')"
    and "\<forall>x \<in> set universe. ChangePerc x \<noteq> NaN"
  shows "\<exists>gainers losers.
           GetMOEXTopGainers stockRepo N s = (Inr (take (nat (if N \<le> 0 then 10 else N)) gainers), s')
         \<and> mset gainers = mset universe
         \<and> sorted_wrt (\<lambda>a b. f64_less (ChangePerc b) (ChangePerc a)
                               \<or> ChangePerc a = ChangePerc b) gainers
         \<and> length (take (nat (if N \<le> 0 then 10 else N)) gainers)
             = min (nat (if N \<le> 0 then 10 else N)) (length universe)
         \<and> GetMOEXTopLosers stockRepo N s = (Inr (take (nat (if N \<le> 0 then 10 else N)) losers), s')
         \<and> mset losers = mset universe
         \<and> sorted_wrt (\<lambda>a b. f64_less (ChangePerc a) (ChangePerc b)
                               \<or> ChangePerc a = ChangePerc b) losers
         \<and> length (take (nat (if N \<le> 0 then 10 else N)) losers)
             = min (nat (if N \<le> 0 then 10 else N)) (length universe)"
proof -
  let ?g = "bubble_sort (\<lambda>a b. f64_less (ChangePerc a) (ChangePerc b)) universe"
  let ?l = "bubble_sort (\<lambda>a b. f64_greater (ChangePerc a) (ChangePerc b)) universe"
  have g1: "GetMOEXTopGainers stockRepo N s = (Inr (take (nat (if N \<le> 0 then 10 else N)) ?g), s')"
    using assms(1) by (simp add: GetMOEXTopGainers_def top_n_take)
  have l1: "GetMOEXTopLosers stockRepo N s = (Inr (take (nat (if N \<le> 0 then 10 else N)) ?l), s')"
    using assms(1) by (simp add: GetMOEXTopLosers_def top_n_take)
  have g2: "sorted_wrt (\<lambda>a b. f64_less (ChangePerc b) (ChangePerc a)
                               \<or> ChangePerc a = ChangePerc b) ?g"
    by (rule bubble_sort_f64_desc[OF assms(2)])
  have l2: "sorted_wrt (\<lambda>a b. f64_less (ChangePerc a) (ChangePerc b)
                               \<or> ChangePerc a = ChangePerc b) ?l"
    by (rule bubble_sort_f64_asc[OF assms(2)])
  show ?thesis
    apply (rule exI[of _ ?g], rule exI[of _ ?l])
    using g1 l1 g2 l2 by (simp add: mset_bubble_sort length_bubble_sort)
qed

theorem C2_top_gainers_losers_witness:
  "repo_GetStocks example_stock_repo [] () = (Inr example_universe, ())
   \<and> example_universe = [stock_SBER, stock_GAZP, stock_LKOH]
   \<and> ChangePerc stock_SBER \<noteq> NaN \<and> ChangePerc stock_GAZP \<noteq> NaN
   \<and> ChangePerc stock_LKOH \<noteq> NaN
   \<and> (\<exists>gainers losers.
           GetMOEXTopGainers example_stock_repo 2 () = (Inr (take 2 gainers), ())
         \<and> mset gainers = mset example_universe
         \<and> sorted_wrt (\<lambda>a b. f64_less (ChangePerc b) (ChangePerc a)
                               \<or> ChangePerc a = ChangePerc b) gainers
         \<and> length (take 2 gainers) = min 2 (length example_universe)
         \<and> GetMOEXTopLosers example_stock_repo 2 () = (Inr (take 2 losers), ())
         \<and> mset losers = mset example_universe
         \<and> sorted_wrt (\<lambda>a b. f64_less (ChangePerc a) (ChangePerc b)
                               \<or> ChangePerc a = ChangePerc b) losers
         \<and> length (take 2 losers) = min 2 (length example_universe))
   \<and> GetMOEXTopGainers example_stock_repo 2 () = (Inr [stock_LKOH, stock_SBER], ())
   \<and> GetMOEXTopLosers example_stock_repo 2 () = (Inr [stock_GAZP, stock_SBER], ())"
proof -
  have h1: "repo_GetStocks example_stock_repo [] () = (Inr example_universe, ())"
    by (simp add: example_stock_repo_def)
  have h2: "\<forall>x \<in> set example_universe. ChangePerc x \<noteq> NaN"
    by (simp add: example_universe_def stock_SBER_def stock_GAZP_def stock_LKOH_def)
  have ev: "GetMOEXTopGainers example_stock_repo 2 () = (Inr [stock_LKOH, stock_SBER], ())
     \<and> GetMOEXTopLosers example_stock_repo 2 () = (Inr [stock_GAZP, stock_SBER], ())"
    by code_simp
  have h3: "example_universe = [stock_SBER, stock_GAZP, stock_LKOH]
     \<and> ChangePerc stock_SBER \<noteq> NaN \<and> ChangePerc stock_GAZP \<noteq> NaN
     \<and> ChangePerc stock_LKOH \<noteq> NaN"
    by (simp add: example_universe_def stock_SBER_def stock_GAZP_def stock_LKOH_def)
  from C2_top_gainers_losers[OF h1 h2, of 2] show ?thesis using h1 h3 ev by simp
qed

subsection \<open>De-duplication in GetNewsForMultipleTickers\<close>

lemma scan_tickers_eq:
  "scan_tickers news tickers (result, seen) =
     (if list_ex (containsTickerInNews news) tickers \<and> \<not> seen (ID news)
      then (result @ [news], seen(ID news := True)) else (result, seen))"
  by (induction tickers) auto

lemma scan_news_props:
  assumes "\<And>i. seen i \<longleftrightarrow> i \<in> ID ` set result" and "distinct (map ID result)"
  shows "\<exists>ext. fst (scan_news tickers allNews (result, seen)) = result @ ext
           \<and> subseq ext allNews
           \<and> distinct (map ID (result @ ext))
           \<and> (\<forall>m \<in> set ext. list_ex (containsTickerInNews m) tickers)
           \<and> (\<forall>n \<in> set allNews. list_ex (containsTickerInNews n) tickers
                  \<longrightarrow> ID n \<in> ID ` set (result @ ext))"
  using assms
proof (induction allNews arbitrary: result seen)
  case Nil
  then show ?case by simp
next
  case (Cons news allNews)
  show ?case
  proof (cases "list_ex (containsTickerInNews news) tickers \<and> \<not> seen (ID news)")
    case True
    have st: "scan_tickers news tickers (result, seen) = (result @ [news], seen(ID news := True))"
      using True by (simp add: scan_tickers_eq)
    have inv: "\<And>i. (seen(ID news := True)) i \<longleftrightarrow> i \<in> ID ` set (result @ [news])"
      using Cons.prems(1) by auto
    have dist: "distinct (map ID (result @ [news]))"
      using Cons.prems True by auto
    from Cons.IH[OF inv dist] obtain ext where
      e: "fst (scan_news tickers allNews (result @ [news], seen(ID news := True))) = (result @ [news]) @ ext"
         "subseq ext allNews" "distinct (map ID ((result @ [news]) @ ext))"
         "\<forall>m \<in> set ext. list_ex (containsTickerInNews m) tickers"
         "\<forall>n \<in> set allNews. list_ex (containsTickerInNews n) tickers
                  \<longrightarrow> ID n \<in> ID ` set ((result @ [news]) @ ext)"
      by blast
    show ?thesis
      apply (rule exI[of _ "news # ext"])
      using e True st by auto
  next
    case False
    have st: "scan_tickers news tickers (result, seen) = (result, seen)"
      using False by (simp add: scan_tickers_eq)
    from Cons.IH[OF Cons.prems] obtain ext where
      e: "fst (scan_news tickers allNews (result, seen)) = result @ ext"
         "subseq ext allNews" "distinct (map ID (result @ ext))"
         "\<forall>m \<in> set ext. list_ex (containsTickerInNews m) tickers"
         "\<forall>n \<in> set allNews. list_ex (containsTickerInNews n) tickers
                  \<longrightarrow> ID n \<in> ID ` set (result @ ext)"
      by blast
    have "list_ex (containsTickerInNews news) tickers \<Longrightarrow> ID news \<in> ID ` set (result @ ext)"
      using False Cons.prems(1) by auto
    then show ?thesis
      apply (intro exI[of _ ext])
      using e st by auto
  qed
qed

lemma distinct_map_filter_one:
  "distinct (map f xs) \<Longrightarrow> x \<in> set xs \<Longrightarrow> length (filter (\<lambda>m. f m = f x) xs) = 1"
proof (induction xs)
  case Nil
  then show ?case by simp
next
  case (Cons a xs)
  show ?case
  proof (cases "f a = f x")
    case True
    have "f a \<notin> f ` set xs" using Cons.prems(1) by simp
    then have "\<forall>m \<in> set xs. f m \<noteq> f x" using True by (metis imageI)
    then have "filter (\<lambda>m. f m = f x) xs = []"
      by (simp add: filter_empty_conv)
    then show ?thesis using True by simp
  next
    case False
    then show ?thesis using Cons by auto
  qed
qed

lemma related_loop_iff: "related_loop ts ticker \<longleftrightarrow> ticker \<in> set ts"
  by (induction ts) auto

lemma containsTickerInNews_related: "t \<in> set (RelatedTo n) \<Longrightarrow> containsTickerInNews n t"
  by (simp add: containsTickerInNews_def related_loop_iff)

text \<open>
  Claim C5. For a non-empty ticker list and any list of today's news, the result of
  \<open>GetNewsForMultipleTickers\<close> is a subsequence of today's news of items that contain one
  of the tickers, no two with the same id, and for every item of today's news that contains
  one of the tickers (in particular, that has one of them in \<open>RelatedTo\<close>) the result has
  exactly one item with its id.
\<close>

theorem C5_multiple_tickers_once:
  assumes "tickers \<noteq> []" and "repo_GetNewsForToday newsRepo s = (Inr allNews, s')"
  shows "\<exists>result. GetNewsForMultipleTickers newsRepo tickers s = (Inr result, s')
           \<and> distinct (map ID result)
           \<and> subseq result allNews
           \<and> (\<forall>m \<in> set result. \<exists>t \<in> set tickers. containsTickerInNews m t)
           \<and> (\<forall>n \<in> set allNews. (\<exists>t \<in> set tickers. containsTickerInNews n t)
                  \<longrightarrow> length (filter (\<lambda>m. ID m = ID n) result) = 1)
           \<and> (\<forall>n \<in> set allNews. (\<exists>t \<in> set tickers. t \<in> set (RelatedTo n))
                  \<longrightarrow> length (filter (\<lambda>m. ID m = ID n) result) = 1)"
proof -
  from scan_news_props[of "\<lambda>k. False" "[]" tickers allNews] obtain ext where
    e: "fst (scan_news tickers allNews ([], \<lambda>k. False)) = ext" "subseq ext allNews"
       "distinct (map ID ext)"
       "\<forall>m \<in> set ext. list_ex (containsTickerInNews m) tickers"
       "\<forall>n \<in> set allNews. list_ex (containsTickerInNews n) tickers \<longrightarrow> ID n \<in> ID ` set ext"
    by auto
  have res: "GetNewsForMultipleTickers newsRepo tickers s = (Inr ext, s')"
    using assms e(1) by (simp add: GetNewsForMultipleTickers_def)
  have once: "length (filter (\<lambda>m. ID m = ID n) ext) = 1"
    if "n \<in> set allNews" "\<exists>t \<in> set tickers. containsTickerInNews n t" for n
  proof -
    from that e(5) have "ID n \<in> ID ` set ext" by (auto simp: list_ex_iff)
    then obtain m where m: "m \<in> set ext" "ID m = ID n" by auto
    from distinct_map_filter_one[OF e(3) m(1)] m(2) show ?thesis by simp
  qed
  have once_related: "length (filter (\<lambda>m. ID m = ID n) ext) = 1"
    if "n \<in> set allNews" "\<exists>t \<in> set tickers. t \<in> set (RelatedTo n)" for n
    using that once[of n] containsTickerInNews_related by blast
  show ?thesis
    apply (rule exI[of _ ext])
    using res e(2,3,4) once once_related by (auto simp: list_ex_iff)
qed

theorem C5_multiple_tickers_once_witness:
  "[''SBER'', ''GAZP''] \<noteq> []
   \<and> repo_GetNewsForToday example_news_repo () = (Inr example_news, ())
   \<and> news_both \<in> set example_news
   \<and> (\<exists>result. GetNewsForMultipleTickers example_news_repo [''SBER'', ''GAZP''] () = (Inr result, ())
           \<and> distinct (map ID result)
           \<and> subseq result example_news
           \<and> length (filter (\<lambda>m. ID m = ID news_both) result) = 1)"
proof -
  have h1: "[''SBER'', ''GAZP''] \<noteq> []" by simp
  have h2: "repo_GetNewsForToday example_news_repo () = (Inr example_news, ())"
    by (simp add: example_news_repo_def)
  have h3: "news_both \<in> set example_news" by (simp add: example_news_def)
  have h4: "\<exists>t \<in> set [''SBER'', ''GAZP'']. t \<in> set (RelatedTo news_both)"
    by (auto simp: news_both_def)
  from C5_multiple_tickers_once[OF h1 h2] h3 h4 show ?thesis
    using h2 by blast
qed

subsection \<open>Recent news\<close>

text \<open>
  Claim C10. For every limit, \<open>GetRecentNews\<close> returns the first \<open>min(limit, number of
  items)\<close> elements of a rearrangement of today's news that is sorted by \<open>PublishedAt\<close>
  descending; a non-positive limit stands for 10.
\<close>

theorem C10_recent_news_sorted:
  assumes "repo_GetNewsForToday newsRepo s = (Inr today, s')"
  shows "\<exists>ranked.
           GetRecentNews newsRepo limit s
             = (Inr (take (nat (if limit \<le> 0 then 10 else limit)) ranked), s')
         \<and> mset ranked = mset today
         \<and> sorted_wrt (\<lambda>a b. instant (PublishedAt a) \<ge> instant (PublishedAt b)) ranked
         \<and> length (take (nat (if limit \<le> 0 then 10 else limit)) ranked)
             = min (nat (if limit \<le> 0 then 10 else limit)) (length today)"
proof -
  let ?r = "bubble_sort (\<lambda>a b. Before (PublishedAt a) (PublishedAt b)) today"
  have r1: "GetRecentNews newsRepo limit s
              = (Inr (take (nat (if limit \<le> 0 then 10 else limit)) ?r), s')"
    using assms by (simp add: GetRecentNews_def top_n_take)
  have "sorted_wrt (\<lambda>a b. \<not> Before (PublishedAt a) (PublishedAt b)) ?r"
    by (rule bubble_sort_sorted) (auto simp: Before_def)
  then have r2: "sorted_wrt (\<lambda>a b. instant (PublishedAt a) \<ge> instant (PublishedAt b)) ?r"
    by (simp add: Before_def not_less)
  show ?thesis
    apply (rule exI[of _ ?r])
    using r1 r2 by (simp add: mset_bubble_sort length_bubble_sort)
qed

theorem C10_recent_news_sorted_witness:
  "repo_GetNewsForToday example_news_repo () = (Inr example_news, ())
   \<and> (\<exists>ranked.
           GetRecentNews example_news_repo 0 () = (Inr (take 10 ranked), ())
         \<and> mset ranked = mset example_news
         \<and> sorted_wrt (\<lambda>a b. instant (PublishedAt a) \<ge> instant (PublishedAt b)) ranked
         \<and> length (take 10 ranked) = min 10 (length example_news))"
proof -
  have h: "repo_GetNewsForToday example_news_repo () = (Inr example_news, ())"
    by (simp add: example_news_repo_def)
  from C10_recent_news_sorted[OF h, of 0] show ?thesis using h by simp
qed

subsection \<open>Validation\<close>

text \<open>
  Claim C6. \<open>GetStockInfo\<close> with an empty ticker, \<open>SearchNewsByKeyword\<close> with an empty
  keyword and \<open>GetNewsForMultipleTickers\<close> with an empty list return their validation
  error and leave the state of the repository as it was, whatever the repository is: no
  method of it is called.
\<close>

theorem C6_validation_before_io:
  "GetStockInfo stockRepo [] s1 = (Inl (Err msg_empty_ticker), s1)
   \<and> SearchNewsByKeyword newsRepo [] s2 = (Inl (Err msg_empty_keyword), s2)
   \<and> GetNewsForMultipleTickers newsRepo' [] s3 = (Inl (Err msg_empty_tickers), s3)"
  by (simp add: GetStockInfo_def SearchNewsByKeyword_def GetNewsForMultipleTickers_def)

subsection \<open>Search and news ids\<close>

text \<open>
  Claim C3, at the query \<open>ZZZZ\<close>, which no ticker and no name of the example universe
  contains: \<open>SearchStocks\<close> returns the whole universe.
\<close>

theorem C3_search_returns_every_stock:
  "SearchStocks example_stock_repo ''ZZZZ'' () = (Inr [stock_SBER, stock_GAZP, stock_LKOH], ())"
  by (simp add: SearchStocks_def example_stock_repo_def example_universe_def containsIgnoreCase_def)

lemma strings_Split_nonempty: "strings_Split s sep \<noteq> []"
  by (induction s) (auto split: list.splits)

lemma generateNewsID_ignores_clock: "generateNewsID url t1 = generateNewsID url t2"
  using strings_Split_nonempty[of url "CHR ''/''"] by (simp add: generateNewsID_def Let_def)

text \<open>
  Claim C4, at two different URLs with the same last path segment: both get the id \<open>1\<close>.
\<close>

theorem C4_different_urls_same_id:
  "generateNewsID ''https://a.ru/news/1.html'' epoch = ''1''
   \<and> generateNewsID ''https://b.ru/post/1.html?from=main'' epoch = ''1''
   \<and> ''https://a.ru/news/1.html'' \<noteq> ''https://b.ru/post/1.html?from=main''"
  by (simp add: generateNewsID_def Let_def)

subsection \<open>Cache misses\<close>

text \<open>
  Claim C8. On an absent key both \<open>Get\<close> functions return nil and leave the destination
  as it was; \<open>RedisCache.Get\<close> returns every other error of the client as it is, so that
  a nil result never stands for a failure of the backend.
\<close>

theorem C8_miss_is_not_an_error:
  "RedisCache_Get json_Unmarshal (Inl redis_Nil) dest = (None, dest)
   \<and> (err \<noteq> redis_Nil \<longrightarrow> RedisCache_Get json_Unmarshal (Inl err) dest = (Some err, dest))
   \<and> InMemoryCache_Get json_Marshal json_Unmarshal' None dest' = (None, dest')"
  by (simp add: RedisCache_Get_def InMemoryCache_Get_def)

theorem C8_miss_is_not_an_error_witness:
  "redis_unavailable \<noteq> redis_Nil
   \<and> RedisCache_Get unmarshal_Stock (Inl redis_Nil) stock_SBER = (None, stock_SBER)
   \<and> RedisCache_Get unmarshal_Stock (Inl redis_unavailable) stock_SBER
        = (Some redis_unavailable, stock_SBER)
   \<and> InMemoryCache_Get Inr unmarshal_Stock None stock_SBER = (None, stock_SBER)"
proof -
  have h: "redis_unavailable \<noteq> redis_Nil"
    by (simp add: redis_unavailable_def redis_Nil_def)
  from C8_miss_is_not_an_error[of unmarshal_Stock stock_SBER redis_unavailable Inr unmarshal_Stock stock_SBER]
  show ?thesis using h by simp
qed

subsection \<open>The tiers of GetStock\<close>

lemma trace_cache_Get: "trace (snd (cache_Get um key dest w)) = trace w @ [EvCacheGet key]"
  by (simp add: cache_Get_def log_event_def Let_def split: backend.splits prod.splits)

lemma trace_cache_Set: "trace (snd (cache_Set key v ttl w)) = trace w @ [EvCacheSet key v ttl]"
  by (simp add: cache_Set_def log_event_def Let_def split: backend.splits prod.splits)



lemma trace_fetchStock: "trace (snd (fetchStockFromAPI r ticker w)) = trace w @ [EvMOEXGetStock ticker]"
  by (simp add: fetchStockFromAPI_def log_event_def split: sum.splits)

lemma fst_fetchStock:
  "fst (fetchStockFromAPI r ticker w) =
     (case moexAPI_GetStock r ticker of Inl e \<Rightarrow> Inl (Wrap msg_moex e) | Inr s \<Rightarrow> Inr s)"
  by (simp add: fetchStockFromAPI_def split: sum.splits)



lemma InsertOne_stock_ok:
  "fst (db_InsertOne_stock doc w) = None \<Longrightarrow> doc \<in> set (stocks_coll (snd (db_InsertOne_stock doc w)))"
  by (simp add: db_InsertOne_stock_def log_event_def Let_def split: prod.splits if_splits)

lemma stocks_coll_cache_Set: "stocks_coll (snd (cache_Set key v ttl w)) = stocks_coll w"
  by (simp add: cache_Set_def log_event_def Let_def split: backend.splits prod.splits)












subsection \<open>Upsert\<close>

lemma replace_first_twice:
  "P y' \<Longrightarrow> replace_first P y (replace_first P y' xs) = replace_first P y xs"
  by (induction xs) auto

lemma replace_first_appended:
  "find P xs = None \<Longrightarrow> P y' \<Longrightarrow> replace_first P y (xs @ [y']) = xs @ [y]"
  by (induction xs) (auto split: if_splits)

lemma find_replace_first:
  "P y \<Longrightarrow> find P xs = Some x \<Longrightarrow> find P (replace_first P y xs) = Some y"
  by (induction xs) (auto split: if_splits)

lemma find_appended: "find P xs = None \<Longrightarrow> P y \<Longrightarrow> find P (xs @ [y]) = Some y"
  by (induction xs) (auto split: if_splits)

lemma find_Some_holds: "find P xs = Some x \<Longrightarrow> P x \<and> x \<in> set xs"
  by (induction xs) (auto split: if_splits)

lemma db_faults_cache_Set: "db_faults (snd (cache_Set key v ttl w)) = db_faults w"
  by (simp add: cache_Set_def log_event_def Let_def split: backend.splits prod.splits)

lemma news_coll_cache_Set: "news_coll (snd (cache_Set key v ttl w)) = news_coll w"
  by (simp add: cache_Set_def log_event_def Let_def split: backend.splits prod.splits)

lemma SaveStock_store:
  assumes "db_faults w = []"
  shows "stocks_coll (snd (SaveStock r now (Some s) w)) =
           (case find (\<lambda>d. Ticker d = Ticker s) (stocks_coll w) of
              None \<Rightarrow> stocks_coll w @ [s\<lparr>UpdatedAt := now\<rparr>]
            | Some _ \<Rightarrow> replace_first (\<lambda>d. Ticker d = Ticker s) (s\<lparr>UpdatedAt := now\<rparr>) (stocks_coll w))"
    and "db_faults (snd (SaveStock r now (Some s) w)) = []"
  using assms
  by (auto simp: SaveStock_def db_FindOne_stock_def db_ReplaceOne_stock_def db_InsertOne_stock_def
                 next_fault_def log_event_def Let_def db_faults_cache_Set stocks_coll_cache_Set
           split: option.splits)

lemma SaveNews_store:
  assumes "db_faults w = []"
  shows "news_coll (snd (SaveNews r (Some n) w)) =
           (case find (\<lambda>d. ID d = ID n) (news_coll w) of
              None \<Rightarrow> news_coll w @ [n]
            | Some _ \<Rightarrow> replace_first (\<lambda>d. ID d = ID n) n (news_coll w))"
    and "db_faults (snd (SaveNews r (Some n) w)) = []"
  using assms
  by (auto simp: SaveNews_def db_FindOne_news_def db_ReplaceOne_news_def db_InsertOne_news_def
                 next_fault_def log_event_def Let_def db_faults_cache_Set news_coll_cache_Set
                 find_None_iff
           dest: find_Some_holds split: option.splits)

lemma SaveStock_last_wins:
  assumes "db_faults w = []"
  shows "stocks_coll (snd (SaveStock r t2 s (snd (SaveStock r t1 s w))))
           = stocks_coll (snd (SaveStock r t2 s w))"
proof (cases s)
  case None
  then show ?thesis by (simp add: SaveStock_def)
next
  case (Some x)
  let ?P = "\<lambda>d. Ticker d = Ticker x"
  have P1: "?P (x\<lparr>UpdatedAt := t1\<rparr>)" by simp
  show ?thesis
  proof (cases "find ?P (stocks_coll w)")
    case None
    then show ?thesis
      using Some SaveStock_store[OF assms, of r t1 x] SaveStock_store[OF assms, of r t2 x]
            SaveStock_store(1)[OF SaveStock_store(2)[OF assms, of r t1 x], of r t2 x]
            find_appended[OF None P1] replace_first_appended[OF None P1]
      by simp
  next
    case (Some d)
    have "find ?P (replace_first ?P (x\<lparr>UpdatedAt := t1\<rparr>) (stocks_coll w)) = Some (x\<lparr>UpdatedAt := t1\<rparr>)"
      using find_replace_first[OF P1 Some] .
    then show ?thesis
      using \<open>s = Some x\<close> Some SaveStock_store[OF assms, of r t1 x] SaveStock_store[OF assms, of r t2 x]
            SaveStock_store(1)[OF SaveStock_store(2)[OF assms, of r t1 x], of r t2 x]
            replace_first_twice[of ?P "x\<lparr>UpdatedAt := t1\<rparr>"]
      by simp
  qed
qed

lemma SaveNews_idempotent:
  assumes "db_faults w = []"
  shows "news_coll (snd (SaveNews r n (snd (SaveNews r n w)))) = news_coll (snd (SaveNews r n w))"
proof (cases n)
  case None
  then show ?thesis by (simp add: SaveNews_def)
next
  case (Some x)
  let ?P = "\<lambda>d. ID d = ID x"
  have P1: "?P x" by simp
  show ?thesis
  proof (cases "find ?P (news_coll w)")
    case None
    then show ?thesis
      using Some SaveNews_store[OF assms, of r x]
            SaveNews_store(1)[OF SaveNews_store(2)[OF assms, of r x], of r x]
            find_appended[OF None P1] replace_first_appended[OF None P1]
      by simp
  next
    case (Some d)
    have "find ?P (replace_first ?P x (news_coll w)) = Some x"
      using find_replace_first[OF P1 Some] .
    then show ?thesis
      using \<open>n = Some x\<close> Some SaveNews_store[OF assms, of r x]
            SaveNews_store(1)[OF SaveNews_store(2)[OF assms, of r x], of r x]
            replace_first_twice[of ?P x]
      by simp
  qed
qed

text \<open>
  Claim C7, as stated, at one stock saved twice into the empty store, the clock reading
  23:30 at the first call and 01:00 at the second: the store after the two calls differs
  from the store after the first.
\<close>

theorem C7_SaveStock_twice_counterexample:
  "db_faults empty_world = []
   \<and> stocks_coll (snd (SaveStock example_stock_impl msk_jan2_0100 (Some stock_GAZP)
                   (snd (SaveStock example_stock_impl msk_jan1_2330 (Some stock_GAZP) empty_world))))
     \<noteq> stocks_coll (snd (SaveStock example_stock_impl msk_jan1_2330 (Some stock_GAZP) empty_world))"
  by code_simp

text \<open>
  Claim C7, amended. While the store answers every call, \<open>SaveNews\<close> called twice with
  the same item leaves the collection as one call does, and \<open>SaveStock\<close> called twice
  with the same stock leaves the collection as the second call alone would: the same
  documents, with \<open>UpdatedAt\<close> of the saved stock read from the clock at the last call.
\<close>

theorem C7_upsert_idempotent:
  assumes "db_faults w = []"
  shows "news_coll (snd (SaveNews nr n (snd (SaveNews nr n w)))) = news_coll (snd (SaveNews nr n w))
       \<and> stocks_coll (snd (SaveStock sr t2 s (snd (SaveStock sr t1 s w))))
           = stocks_coll (snd (SaveStock sr t2 s w))"
  using SaveNews_idempotent[OF assms] SaveStock_last_wins[OF assms] by simp

theorem C7_upsert_idempotent_witness:
  "db_faults empty_world = []
   \<and> news_coll (snd (SaveNews example_news_impl (Some news_lkoh)
                  (snd (SaveNews example_news_impl (Some news_lkoh) empty_world))))
       = news_coll (snd (SaveNews example_news_impl (Some news_lkoh) empty_world))
   \<and> stocks_coll (snd (SaveStock example_stock_impl msk_jan2_0100 (Some stock_GAZP)
                  (snd (SaveStock example_stock_impl msk_jan1_2330 (Some stock_GAZP) empty_world))))
       = stocks_coll (snd (SaveStock example_stock_impl msk_jan2_0100 (Some stock_GAZP) empty_world))"
proof -
  have h: "db_faults empty_world = []" by (simp add: empty_world_def)
  from C7_upsert_idempotent[OF h] show ?thesis using h by simp
qed

subsection \<open>News by date\<close>

lemma local_day_Truncate24h_utc: "zone date = 0 \<Longrightarrow> local_day (Truncate24h date) = local_day date"
proof -
  have "(i - i mod day_ns) div day_ns = i div day_ns" for i :: int
    by (simp add: day_ns_def minus_mod_eq_mult_div)
  then show "zone date = 0 \<Longrightarrow> local_day (Truncate24h date) = local_day date"
    by (simp add: local_day_def Truncate24h_def)
qed

lemma local_day_Truncate24h_le: "local_day (Truncate24h date) \<le> local_day date"
proof -
  have "0 \<le> instant date mod day_ns" by (simp add: day_ns_def)
  then have "instant date - instant date mod day_ns + zone date \<le> instant date + zone date"
    by simp
  then show ?thesis
    unfolding local_day_def Truncate24h_def
    by (simp add: zdiv_mono1 day_ns_def)
qed

lemma trace_Find_news:
  "trace (snd (db_Find_news_by_date a b w)) = trace w @ [EvFindNewsByDate a b]"
  by (simp add: db_Find_news_by_date_def log_event_def Let_def split: prod.splits)

lemma GetNewsByDate_unfold:
  "GetNewsByDate r now date w =
     (let startDate = Truncate24h date;
          endDate = Add startDate day_ns;
          cacheKey = ''news:date:'' @ Format_date startDate;
          cg = cache_Get unmarshal_NewsList cacheKey [] w;
          w1 = (if news_useCache r then snd cg else w);
          fd = db_Find_news_by_date startDate endDate w1
      in if news_useCache r \<and> fst (fst cg) = None \<and> length (snd (fst cg)) > 0
         then (Inr (snd (fst cg)), w1)
         else case fst fd of
                Inl err \<Rightarrow> (Inl (Wrap msg_db_find err), snd fd)
              | Inr news \<Rightarrow>
                  if length news > 0
                  then (Inr news,
                        if news_useCache r
                        then snd (cache_Set cacheKey (VNewsList news) (news_cacheExpiry r) (snd fd))
                        else snd fd)
                  else if local_day startDate = local_day now
                  then fetchTodayNewsFromAPI r now (snd fd)
                  else (Inr [], snd fd))"
  by (simp add: GetNewsByDate_def Let_def split: prod.splits sum.splits)

lemma GetNewsByDate_other_day:
  assumes "local_day (Truncate24h date) \<noteq> local_day now"
    and "EvNewsAPIGetTodayNews \<notin> set (trace w)"
  shows "EvNewsAPIGetTodayNews \<notin> set (trace (snd (GetNewsByDate r now date w)))"
  using assms
  by (simp add: GetNewsByDate_unfold Let_def trace_cache_Get trace_cache_Set trace_Find_news
           split: sum.splits)

lemma GetNewsByDate_past_day:
  assumes "local_day date < local_day now"
    and "EvNewsAPIGetTodayNews \<notin> set (trace w)"
  shows "EvNewsAPIGetTodayNews \<notin> set (trace (snd (GetNewsByDate r now date w)))"
proof -
  have "local_day (Truncate24h date) \<noteq> local_day now"
    using local_day_Truncate24h_le[of date] assms(1) by simp
  then show ?thesis using assms(2) by (rule GetNewsByDate_other_day)
qed

text \<open>
  Claim C9, in a location three hours east of UTC, at 23:30 on 1 January, for the date
  2 January 01:00, with cache and store empty: the date is not the current day, and
  \<open>GetNewsByDate\<close> calls the provider and returns what it answers.
\<close>

theorem C9_provider_called_for_tomorrow:
  "local_day msk_jan2_0100 \<noteq> local_day msk_jan1_2330
   \<and> cache_items empty_world = Map.empty \<and> news_coll empty_world = []
   \<and> fst (GetNewsByDate example_news_impl msk_jan1_2330 msk_jan2_0100 empty_world) = Inr [news_lkoh]
   \<and> EvNewsAPIGetTodayNews
       \<in> set (trace (snd (GetNewsByDate example_news_impl msk_jan1_2330 msk_jan2_0100 empty_world)))"
proof -
  have a: "local_day msk_jan2_0100 \<noteq> local_day msk_jan1_2330" by code_simp
  have b: "cache_items empty_world = Map.empty \<and> news_coll empty_world = []"
    by (simp add: empty_world_def)
  have c: "fst (GetNewsByDate example_news_impl msk_jan1_2330 msk_jan2_0100 empty_world) = Inr [news_lkoh]"
    by code_simp
  have d: "EvNewsAPIGetTodayNews
       \<in> set (trace (snd (GetNewsByDate example_news_impl msk_jan1_2330 msk_jan2_0100 empty_world)))"
    by code_simp
  show ?thesis using a b c d by simp
qed

end
